theory Spec2Isabelle
  imports
    Complex_Main
    "HOL-Library.Char_ord"
    "HOL-Library.List_Lexorder"
    "HOL-Library.Option_ord"
    "HOL-Library.Sublist"
begin

section \<open>The expense table\<close>

text \<open>
  \<^verbatim>\<open>expenses.py\<close> keeps one SQLite table
  \<^verbatim>\<open>expenses (id INTEGER PRIMARY KEY AUTOINCREMENT, date TEXT, category TEXT, amount REAL)\<close>
  and drives it from Tk callbacks. A row of the table is a record. Python strings are
  character lists; the \<^verbatim>\<open>REAL\<close> column is modelled by exact real numbers, so the
  rounding of IEEE doubles (and the values \<^verbatim>\<open>inf\<close> and \<^verbatim>\<open>nan\<close>) is outside the model.

  The database state is the list of rows in rowid order, which is the order of
  \<^verbatim>\<open>SELECT * FROM expenses\<close>, together with the row that SQLite keeps for the table in
  \<^verbatim>\<open>sqlite_sequence\<close> (\<open>None\<close> when there is no such row).
\<close>

record expense =
  exp_id :: nat
  exp_date :: string
  exp_category :: string
  exp_amount :: real

record db =
  expenses :: "expense list"
  sqlite_sequence :: "nat option"

definition fresh_db :: db where
  "fresh_db = \<lparr>expenses = [], sqlite_sequence = None\<rparr>"

datatype exn = ValueError | OperationalError | OSError

section \<open>Validation\<close>

subsection \<open>\<^verbatim>\<open>validate_date\<close>: \<^verbatim>\<open>datetime.strptime(date_text, "%Y-%m-%d")\<close>\<close>

text \<open>
  \<^verbatim>\<open>strptime\<close> turns the format into the regular expression
  \<^verbatim>\<open>(?P<Y>\d\d\d\d)-(?P<m>1[0-2]|0[1-9]|[1-9])-(?P<d>3[0-1]|[1-2]\d|0[1-9]|[1-9]| [1-9])\<close>,
  matches it at the start of the string, raises \<^verbatim>\<open>ValueError\<close> when there is no match or
  when the match does not end where the string ends, and then builds the date, which
  raises \<^verbatim>\<open>ValueError\<close> for a year outside 1..9999 or a day the month does not have.
  Each directive is a function from the remaining input to its matches in the order in
  which the backtracking matcher tries them; the match that \<^verbatim>\<open>re.match\<close> returns is the
  first of the combined list.
\<close>

definition digit :: "char \<Rightarrow> bool" where
  "digit c = (c \<in> set ''0123456789'')"

definition digit_val :: "char \<Rightarrow> nat" where
  "digit_val c = of_char c - 48"

definition number :: "string \<Rightarrow> nat" where
  "number cs = foldl (\<lambda>n c. 10 * n + digit_val c) 0 cs"

fun match_Y :: "string \<Rightarrow> (nat \<times> string) list" where
  "match_Y (a # b # c # d # rest) =
     (if digit a \<and> digit b \<and> digit c \<and> digit d then [(number [a, b, c, d], rest)] else [])"
| "match_Y _ = []"

definition match_lit :: "char \<Rightarrow> string \<Rightarrow> string list" where
  "match_lit x s = (case s of [] \<Rightarrow> [] | c # rest \<Rightarrow> if c = x then [rest] else [])"

definition two_chars :: "(char \<Rightarrow> bool) \<Rightarrow> (char \<Rightarrow> bool) \<Rightarrow> string \<Rightarrow> (nat \<times> string) list" where
  "two_chars p q s =
     (case s of a # b # rest \<Rightarrow> if p a \<and> q b then [(number [a, b], rest)] else [] | _ \<Rightarrow> [])"

definition one_char :: "(char \<Rightarrow> bool) \<Rightarrow> string \<Rightarrow> (nat \<times> string) list" where
  "one_char p s = (case s of a # rest \<Rightarrow> if p a then [(number [a], rest)] else [] | _ \<Rightarrow> [])"

definition space_digit :: "string \<Rightarrow> (nat \<times> string) list" where
  "space_digit s =
     (case s of a # b # rest \<Rightarrow>
        if a = CHR '' '' \<and> b \<in> set ''123456789'' then [(number [b], rest)] else []
      | _ \<Rightarrow> [])"

definition match_m :: "string \<Rightarrow> (nat \<times> string) list" where
  "match_m s =
     two_chars (\<lambda>a. a = CHR ''1'') (\<lambda>b. b \<in> set ''012'') s
     @ two_chars (\<lambda>a. a = CHR ''0'') (\<lambda>b. b \<in> set ''123456789'') s
     @ one_char (\<lambda>a. a \<in> set ''123456789'') s"

definition match_d :: "string \<Rightarrow> (nat \<times> string) list" where
  "match_d s =
     two_chars (\<lambda>a. a = CHR ''3'') (\<lambda>b. b \<in> set ''01'') s
     @ two_chars (\<lambda>a. a \<in> set ''12'') digit s
     @ two_chars (\<lambda>a. a = CHR ''0'') (\<lambda>b. b \<in> set ''123456789'') s
     @ one_char (\<lambda>a. a \<in> set ''123456789'') s
     @ space_digit s"

definition format_regex_match :: "string \<Rightarrow> ((nat \<times> nat \<times> nat) \<times> string) list" where
  "format_regex_match s =
     [((y, m, d), r5).
        (y, r1) \<leftarrow> match_Y s, r2 \<leftarrow> match_lit CHR ''-'' r1,
        (m, r3) \<leftarrow> match_m r2, r4 \<leftarrow> match_lit CHR ''-'' r3,
        (d, r5) \<leftarrow> match_d r4]"

definition is_leap :: "nat \<Rightarrow> bool" where
  "is_leap y = (y mod 4 = 0 \<and> (y mod 100 \<noteq> 0 \<or> y mod 400 = 0))"

definition days_in_month :: "nat \<Rightarrow> nat \<Rightarrow> nat" where
  "days_in_month y m =
     (if m = 2 then (if is_leap y then 29 else 28)
      else if m \<in> {4, 6, 9, 11} then 30 else 31)"

text \<open>The check of the \<^verbatim>\<open>datetime.date\<close> constructor.\<close>

definition datetime_date :: "nat \<Rightarrow> nat \<Rightarrow> nat \<Rightarrow> bool" where
  "datetime_date y m d =
     (1 \<le> y \<and> y \<le> 9999 \<and> 1 \<le> m \<and> m \<le> 12 \<and> 1 \<le> d \<and> d \<le> days_in_month y m)"

definition strptime :: "string \<Rightarrow> exn + (nat \<times> nat \<times> nat)" where
  "strptime s =
     (case format_regex_match s of
        [] \<Rightarrow> Inl ValueError
      | ((y, m, d), rest) # _ \<Rightarrow>
          if rest \<noteq> [] then Inl ValueError
          else if datetime_date y m d then Inr (y, m, d)
          else Inl ValueError)"

definition validate_date :: "string \<Rightarrow> bool" where
  "validate_date date_text = (case strptime date_text of Inr _ \<Rightarrow> True | Inl _ \<Rightarrow> False)"

subsection \<open>\<^verbatim>\<open>validate_amount\<close>: \<^verbatim>\<open>float(amount_text) > 0\<close>\<close>

text \<open>
  Python's builtin \<^verbatim>\<open>float\<close> is a parameter \<open>pyfloat\<close> of the model: it returns the number
  a string denotes, or \<open>None\<close> where \<^verbatim>\<open>float\<close> raises \<^verbatim>\<open>ValueError\<close>.
\<close>

definition validate_amount :: "(string \<Rightarrow> real option) \<Rightarrow> string \<Rightarrow> bool" where
  "validate_amount pyfloat amount_text =
     (case pyfloat amount_text of Some x \<Rightarrow> x > 0 | None \<Rightarrow> False)"

text \<open>
  The values of \<^verbatim>\<open>float\<close> on unsigned decimal integer numerals such as \<^verbatim>\<open>"5"\<close> and
  \<^verbatim>\<open>"120"\<close>; an instance of the parameter for evaluating the model on such inputs.
\<close>

definition float_of_numeral :: "string \<Rightarrow> real option" where
  "float_of_numeral s = (if s \<noteq> [] \<and> list_all digit s then Some (real (number s)) else None)"

subsection \<open>The date format the specification asks for\<close>

text \<open>
  Written from the specification, for comparison with \<open>validate_date\<close>: a valid calendar
  date in \<^verbatim>\<open>YYYY-MM-DD\<close> form, zero-padded and of fixed width.
\<close>

fun spec_valid_date :: "string \<Rightarrow> bool" where
  "spec_valid_date [y1, y2, y3, y4, s1, m1, m2, s2, d1, d2] =
     (list_all digit [y1, y2, y3, y4, m1, m2, d1, d2] \<and> s1 = CHR ''-'' \<and> s2 = CHR ''-''
      \<and> datetime_date (number [y1, y2, y3, y4]) (number [m1, m2]) (number [d1, d2]))"
| "spec_valid_date _ = False"

section \<open>Adding and deleting\<close>

subsection \<open>\<^verbatim>\<open>INSERT\<close> into a table with \<^verbatim>\<open>AUTOINCREMENT\<close>\<close>

text \<open>
  The new rowid is one more than the larger of the largest rowid in the table and the
  value kept in \<^verbatim>\<open>sqlite_sequence\<close>; that value is then set to the new rowid. When the
  larger of the two is already the largest 64-bit rowid the statement fails with
  \<^verbatim>\<open>SQLITE_FULL\<close>, which the \<^verbatim>\<open>sqlite3\<close> module raises as \<^verbatim>\<open>OperationalError\<close>. The new
  row has the largest rowid, so it is the last one in rowid order.
\<close>

definition max_rowid :: nat where
  "max_rowid = 9223372036854775807"

definition largest_rowid :: "expense list \<Rightarrow> nat" where
  "largest_rowid rs = foldr max (map exp_id rs) 0"

definition seq_value :: "db \<Rightarrow> nat" where
  "seq_value st = (case sqlite_sequence st of None \<Rightarrow> 0 | Some n \<Rightarrow> n)"

definition next_rowid :: "db \<Rightarrow> nat" where
  "next_rowid st = max (largest_rowid (expenses st)) (seq_value st) + 1"

definition insert_expense :: "string \<Rightarrow> string \<Rightarrow> real \<Rightarrow> db \<Rightarrow> exn + db" where
  "insert_expense d c a st =
     (if max_rowid < next_rowid st then Inl OperationalError
      else Inr \<lparr>expenses = expenses st @
                   [\<lparr>exp_id = next_rowid st, exp_date = d, exp_category = c, exp_amount = a\<rparr>],
                sqlite_sequence = Some (next_rowid st)\<rparr>)"

subsection \<open>\<^verbatim>\<open>add_expense\<close>\<close>

text \<open>
  The callback reads the three entry fields, which are the arguments here. Its result
  is the text it puts on the status label and the database it leaves; an exception
  that escapes the callback is \<open>Inl\<close>, and then the database is the one before the call.
\<close>

definition add_expense ::
  "(string \<Rightarrow> real option) \<Rightarrow> string \<Rightarrow> string \<Rightarrow> string \<Rightarrow> db \<Rightarrow> exn + (string \<times> db)" where
  "add_expense pyfloat date category amount st =
     (if \<not> validate_date date then Inr (''Invalid date! Use YYYY-MM-DD format.'', st)
      else if category = [] then Inr (''Category cannot be empty.'', st)
      else if \<not> validate_amount pyfloat amount
        then Inr (''Invalid amount! Enter a positive number.'', st)
      else (case pyfloat amount of
              None \<Rightarrow> Inl ValueError
            | Some a \<Rightarrow>
                (case insert_expense date category a st of
                   Inl e \<Rightarrow> Inl e
                 | Inr st' \<Rightarrow> Inr (''Expense added successfully!'', st'))))"

subsection \<open>\<^verbatim>\<open>delete_expense\<close> and \<^verbatim>\<open>delete_all_expenses\<close>\<close>

text \<open>
  The selection is the list of ids shown in the selected rows of the tree view. Each
  is deleted with \<^verbatim>\<open>DELETE FROM expenses WHERE id = ?\<close>, which removes the row with that id
  when there is one and nothing otherwise. After the loop the rows are counted, and
  the \<^verbatim>\<open>sqlite_sequence\<close> row of the table is deleted when none is left. With an empty
  selection the callback only changes the status label.
\<close>

definition delete_by_id :: "nat \<Rightarrow> expense list \<Rightarrow> expense list" where
  "delete_by_id item_id rs = filter (\<lambda>r. exp_id r \<noteq> item_id) rs"

definition delete_expense :: "nat list \<Rightarrow> db \<Rightarrow> string \<times> db" where
  "delete_expense selected_items st =
     (if selected_items \<noteq> [] then
        (let rs = fold delete_by_id selected_items (expenses st);
             count = length rs
         in (''Selected expenses deleted successfully!'',
             if count = 0 then \<lparr>expenses = rs, sqlite_sequence = None\<rparr>
             else st\<lparr>expenses := rs\<rparr>))
      else (''Please select an expense to delete!'', st))"

definition delete_all_expenses :: "db \<Rightarrow> string \<times> db" where
  "delete_all_expenses st =
     (''All expenses deleted successfully!'', \<lparr>expenses = [], sqlite_sequence = None\<rparr>)"

subsection \<open>\<^verbatim>\<open>view_expenses\<close>\<close>

text \<open>The rows shown in the tree view and the total on the label (Python's \<^verbatim>\<open>sum\<close>).\<close>

definition total_expense :: "expense list \<Rightarrow> real" where
  "total_expense rs = sum_list (map exp_amount rs)"

definition view_expenses :: "db \<Rightarrow> expense list \<times> real" where
  "view_expenses st = (expenses st, total_expense (expenses st))"

section \<open>Queries\<close>

subsection \<open>\<^verbatim>\<open>generate_report\<close>\<close>

text \<open>
  \<^verbatim>\<open>SELECT * FROM expenses WHERE date BETWEEN ? AND ?\<close> keeps the rows with
  \<^verbatim>\<open>date >= start AND date <= end\<close>. Both sides are text, compared byte by byte and then
  by length, which is the lexicographic order of the character lists. The callback adds
  the amounts up in a loop that starts at 0.
\<close>

definition between :: "string \<Rightarrow> string \<Rightarrow> string \<Rightarrow> bool" where
  "between x lo hi = (lo \<le> x \<and> x \<le> hi)"

definition generate_report :: "string \<Rightarrow> string \<Rightarrow> db \<Rightarrow> expense list \<times> real" where
  "generate_report start_date end_date st =
     (let rows = filter (\<lambda>r. between (exp_date r) start_date end_date) (expenses st)
      in (rows, foldl (\<lambda>t r. t + exp_amount r) 0 rows))"

subsection \<open>\<^verbatim>\<open>GROUP BY\<close> with \<^verbatim>\<open>SUM(amount)\<close>\<close>

text \<open>
  \<^verbatim>\<open>SELECT key, SUM(amount) FROM expenses GROUP BY key\<close> has one result row for each
  distinct value of the key, with the sum of the amounts of the rows that have it.
  SQLite groups on a column or expression without an index by sorting on it, so
  the result rows come out in ascending order of the key, \<^verbatim>\<open>NULL\<close> (here \<open>None\<close>) first
  and text in bytewise order.
\<close>

definition group_by_sum :: "(expense \<Rightarrow> 'k::linorder) \<Rightarrow> expense list \<Rightarrow> ('k \<times> real) list" where
  "group_by_sum key rs =
     map (\<lambda>k. (k, total_expense (filter (\<lambda>r. key r = k) rs))) (sort (remdups (map key rs)))"

subsection \<open>\<^verbatim>\<open>generate_spending_chart\<close>\<close>

text \<open>
  SQLite's \<^verbatim>\<open>strftime('%Y-%m', date)\<close> on a date without a time of day: the text must be
  four digits, a dash, two digits, a dash and two digits, with a month in 1..12; the
  result is the year and the month. Any other text that \<open>validate_date\<close> lets through
  (a month or a day of one digit) is not a time value for SQLite, and the result is
  \<^verbatim>\<open>NULL\<close>. The time values of SQLite that \<open>validate_date\<close> refuses (a time of day, a
  Julian day number, \<^verbatim>\<open>now\<close>, a day of 29 to 31 that the month does not have) are never
  stored; this function is \<open>None\<close> on them too, which is not what SQLite gives, so it
  stands for \<^verbatim>\<open>strftime\<close> on stored dates only.
\<close>

fun strftime_ym :: "string \<Rightarrow> string option" where
  "strftime_ym [y1, y2, y3, y4, s1, m1, m2, s2, d1, d2] =
     (if list_all digit [y1, y2, y3, y4, m1, m2, d1, d2] \<and> s1 = CHR ''-'' \<and> s2 = CHR ''-''
         \<and> 1 \<le> number [m1, m2] \<and> number [m1, m2] \<le> 12
         \<and> 1 \<le> number [d1, d2]
         \<and> number [d1, d2] \<le> days_in_month (number [y1, y2, y3, y4]) (number [m1, m2])
      then Some [y1, y2, y3, y4, CHR ''-'', m1, m2] else None)"
| "strftime_ym _ = None"

definition monthly_rows :: "db \<Rightarrow> (string option \<times> real) list" where
  "monthly_rows st = group_by_sum (\<lambda>r. strftime_ym (exp_date r)) (expenses st)"

text \<open>The two lists that the callback hands to \<^verbatim>\<open>plt.bar\<close>.\<close>

definition generate_spending_chart :: "db \<Rightarrow> string option list \<times> real list" where
  "generate_spending_chart st =
     (let rows = monthly_rows st in (map fst rows, map snd rows))"

subsection \<open>\<^verbatim>\<open>generate_category_pie_chart\<close>\<close>

definition category_rows :: "db \<Rightarrow> (string \<times> real) list" where
  "category_rows st = group_by_sum exp_category (expenses st)"

definition generate_category_pie_chart :: "db \<Rightarrow> string list \<times> real list" where
  "generate_category_pie_chart st =
     (let rows = category_rows st in (map fst rows, map snd rows))"

section \<open>Recommendations\<close>

text \<open>
  \<^verbatim>\<open>df["Category"].str.contains(pat, case=False, na=False)\<close> compiles the pattern with
  \<^verbatim>\<open>re.IGNORECASE\<close> and searches each category for it. Both patterns are plain text. A
  string of the model is the UTF-8 encoding of the Python string, so a character of the
  category is one byte or several. A letter of the pattern matches its lower case and
  its upper case form and every other character with the same case folding: for
  \<^verbatim>\<open>i\<close> these are the dotted capital \<^verbatim>\<open>U+0130\<close> and the dotless small \<^verbatim>\<open>U+0131\<close>, for \<^verbatim>\<open>s\<close> the long
  s \<^verbatim>\<open>U+017F\<close>, for \<^verbatim>\<open>k\<close> the Kelvin sign \<^verbatim>\<open>U+212A\<close>. Any other character of the pattern matches
  itself only. \<open>ignorecase\<close> lists the encodings that a character of the pattern matches.
\<close>

definition lower :: "char \<Rightarrow> char" where
  "lower c =
     (case map_of (zip ''ABCDEFGHIJKLMNOPQRSTUVWXYZ'' ''abcdefghijklmnopqrstuvwxyz'') c of
        Some l \<Rightarrow> l | None \<Rightarrow> c)"

definition upper :: "char \<Rightarrow> char" where
  "upper c =
     (case map_of (zip ''abcdefghijklmnopqrstuvwxyz'' ''ABCDEFGHIJKLMNOPQRSTUVWXYZ'') c of
        Some u \<Rightarrow> u | None \<Rightarrow> c)"

definition ignorecase :: "char \<Rightarrow> string list" where
  "ignorecase p =
     [[lower p], [upper p]]
     @ (if lower p = CHR ''i'' then [[CHR 0xC4, CHR 0xB0], [CHR 0xC4, CHR 0xB1]] else [])
     @ (if lower p = CHR ''s'' then [[CHR 0xC5, CHR 0xBF]] else [])
     @ (if lower p = CHR ''k'' then [[CHR 0xE2, CHR 0x84, CHR 0xAA]] else [])"

text \<open>\<open>match_here pat s\<close>: the pattern matches at the start of \<open>s\<close>.\<close>

fun match_here :: "string \<Rightarrow> string \<Rightarrow> bool" where
  "match_here [] s = True"
| "match_here (p # ps) s =
     list_ex (\<lambda>a. prefix a s \<and> match_here ps (drop (length a) s)) (ignorecase p)"

text \<open>\<^verbatim>\<open>re.search\<close>: the pattern matches at some position of the string, the end included.\<close>

fun search :: "string \<Rightarrow> string \<Rightarrow> bool" where
  "search pat [] = match_here pat []"
| "search pat (c # cs) = (match_here pat (c # cs) \<or> search pat cs)"

definition str_contains :: "string \<Rightarrow> string \<Rightarrow> bool" where
  "str_contains pat s = search pat s"

definition dining_message :: string where
  "dining_message = ''Consider reducing spending on dining out to save more.''"

definition entertainment_message :: string where
  "entertainment_message = ''Think about cutting down on entertainment expenses.''"

definition affirming_message :: string where
  "affirming_message = ''You're doing great! Keep up the good work.''"

text \<open>
  The data frame holds the rows of the category query. The three sums of the function
  are definitions of their own, named as its variables are.
\<close>

definition total_spent :: "db \<Rightarrow> real" where
  "total_spent st = sum_list (map snd (category_rows st))"

definition dining_spent :: "db \<Rightarrow> real" where
  "dining_spent st =
     sum_list (map snd (filter (\<lambda>(c, a). str_contains ''Dining Out'' c) (category_rows st)))"

definition entertainment_spent :: "db \<Rightarrow> real" where
  "entertainment_spent st =
     sum_list (map snd (filter (\<lambda>(c, a). str_contains ''Entertainment'' c) (category_rows st)))"

definition get_spending_insights :: "db \<Rightarrow> string list" where
  "get_spending_insights st =
     (let recommendations = [];
          recommendations =
            (if dining_spent st > total_spent st * 0.2
             then recommendations @ [dining_message]
             else recommendations);
          recommendations =
            (if entertainment_spent st > total_spent st * 0.15
             then recommendations @ [entertainment_message]
             else recommendations);
          recommendations =
            (if recommendations = [] then recommendations @ [affirming_message]
             else recommendations)
      in recommendations)"

section \<open>Export\<close>








text \<open>
  The destination of the export: what the file holds (\<open>None\<close> when it does not exist),
  whether \<^verbatim>\<open>open(file_path, mode="w")\<close> fails, how many bytes the device has room for once
  the file is emptied, and the text of the exception that a failure raises. Opening the
  file for writing empties it.
\<close>

record destination =
  content :: "string option"
  open_fails :: bool
  room :: nat
  os_error :: string

text \<open>
  The file object that \<^verbatim>\<open>open\<close> returns keeps what is written to it in a buffer. It hands
  the buffer to the device when the buffer holds more than \<open>buffer_size\<close> bytes, a
  parameter of the model (the text layer and the byte layer of the file object are
  taken as one buffer), and when the file is closed. The device takes the bytes that it
  has room for; when it cannot take them all, the write raises \<^verbatim>\<open>OSError\<close> and the rest stays
  in the buffer.
\<close>

record text_io =
  dest :: destination
  pending :: string








text \<open>
  What holds of an open file while the export writes \<open>written\<close> to it: the destination
  holds a prefix of it and the buffer the rest, and the room left is what the device had
  less what it took.
\<close>

definition file_inv :: "nat \<Rightarrow> string \<Rightarrow> text_io \<Rightarrow> bool" where
  "file_inv room0 written f =
     (case content (dest f) of
        None \<Rightarrow> False
      | Some bytes \<Rightarrow> bytes @ pending f = written \<and> length bytes + room (dest f) = room0)"

section \<open>The arithmetic of doubles\<close>

text \<open>
  An amount is the real number that the stored double denotes, and the functions above
  add and compare these numbers exactly. The code adds doubles, and every addition
  rounds. This section has that arithmetic: \<open>round64\<close> is the rounding of a real number
  to the nearest double, ties to the even mantissa, with the gradual underflow below
  \<^verbatim>\<open>2^-1022\<close>; a result of \<^verbatim>\<open>2^1024\<close> or more, which IEEE 754 turns into an infinity, is
  outside the model. The exponent of a number is found by halving or doubling it until
  it lies in the interval from 1 to 2.
\<close>

definition pow2 :: "int \<Rightarrow> real" where
  "pow2 n = (if 0 \<le> n then 2 ^ nat n else 1 / 2 ^ nat (- n))"

definition rne :: "real \<Rightarrow> int" where
  "rne x =
     (let f = \<lfloor>x\<rfloor>; d = x - of_int f
      in if d < 1 / 2 then f else if 1 / 2 < d then f + 1 else if even f then f else f + 1)"

fun halvings :: "nat \<Rightarrow> real \<Rightarrow> int" where
  "halvings 0 x = 0"
| "halvings (Suc k) x = (if x < 2 then 0 else 1 + halvings k (x / 2))"

fun doublings :: "nat \<Rightarrow> real \<Rightarrow> int" where
  "doublings 0 x = 0"
| "doublings (Suc k) x = (if 1 \<le> x then 0 else 1 + doublings k (x * 2))"

definition exponent :: "real \<Rightarrow> int" where
  "exponent x = (if 1 \<le> \<bar>x\<bar> then halvings 1024 \<bar>x\<bar> else - doublings 1074 \<bar>x\<bar>)"

definition round64 :: "real \<Rightarrow> real" where
  "round64 x =
     (if x = 0 then 0
      else let q = pow2 (max (exponent x) (- 1022) - 52) in of_int (rne (x / q)) * q)"

definition fadd :: "real \<Rightarrow> real \<Rightarrow> real" where
  "fadd x y = round64 (x + y)"

definition fsub :: "real \<Rightarrow> real \<Rightarrow> real" where
  "fsub x y = round64 (x - y)"

definition fmul :: "real \<Rightarrow> real \<Rightarrow> real" where
  "fmul x y = round64 (x * y)"

text \<open>
  Python's \<^verbatim>\<open>sum\<close> over floats, and the loop \<^verbatim>\<open>total += row[3]\<close>, start at 0 and add from
  left to right (CPython 3.11; from 3.12 on \<^verbatim>\<open>sum\<close> carries a correction term as well).
\<close>

definition py_sum :: "real list \<Rightarrow> real" where
  "py_sum xs = foldl fadd 0 xs"

text \<open>
  SQLite's \<^verbatim>\<open>SUM\<close> over \<^verbatim>\<open>REAL\<close> values (version 3.44 and later) is the summation of Kahan,
  Babuska and Neumaier: beside the running sum it keeps the sum of the rounding errors
  of the additions and adds it at the end. The rows of a group reach it in the order of
  the table.
\<close>

definition kbn_step :: "real \<times> real \<Rightarrow> real \<Rightarrow> real \<times> real" where
  "kbn_step acc r =
     (case acc of (s, err) \<Rightarrow>
        let t = fadd s r
        in (t, if \<bar>s\<bar> > \<bar>r\<bar> then fadd err (fadd (fsub s t) r)
               else fadd err (fadd (fsub r t) s)))"

definition sql_sum :: "real list \<Rightarrow> real" where
  "sql_sum xs = (case foldl kbn_step (0, 0) xs of (s, err) \<Rightarrow> fadd s err)"

subsection \<open>The queries and the totals with a given summation\<close>

text \<open>
  \<open>group_by_sum\<close> with the summation of the engine as a parameter; with \<open>sum_list\<close> it is
  \<open>group_by_sum\<close> itself, with \<open>sql_sum\<close> it is what SQLite computes.
\<close>

definition group_by_sum_with ::
  "(real list \<Rightarrow> real) \<Rightarrow> (expense \<Rightarrow> 'k::linorder) \<Rightarrow> expense list \<Rightarrow> ('k \<times> real) list" where
  "group_by_sum_with summation key rs =
     map (\<lambda>k. (k, summation (map exp_amount (filter (\<lambda>r. key r = k) rs))))
       (sort (remdups (map key rs)))"




subsection \<open>\<^verbatim>\<open>get_spending_insights\<close> with the arithmetic of the code\<close>

text \<open>
  The data frame holds the rows of the category query, whose sums SQLite computed. The
  sum of a pandas \<^verbatim>\<open>Series\<close> is the parameter \<open>series_sum\<close>: the library adds the doubles
  of the column in an order of its own choice, which for a short column is from left
  to right. \<^verbatim>\<open>0.2\<close> and \<^verbatim>\<open>0.15\<close> are the doubles nearest to these numbers, and the product with
  the total is rounded before it is compared.
\<close>

definition category_rows_fp :: "db \<Rightarrow> (string \<times> real) list" where
  "category_rows_fp st = group_by_sum_with sql_sum exp_category (expenses st)"

definition total_spent_fp :: "(real list \<Rightarrow> real) \<Rightarrow> db \<Rightarrow> real" where
  "total_spent_fp series_sum st = series_sum (map snd (category_rows_fp st))"

definition dining_spent_fp :: "(real list \<Rightarrow> real) \<Rightarrow> db \<Rightarrow> real" where
  "dining_spent_fp series_sum st =
     series_sum (map snd (filter (\<lambda>(c, a). str_contains ''Dining Out'' c) (category_rows_fp st)))"

definition entertainment_spent_fp :: "(real list \<Rightarrow> real) \<Rightarrow> db \<Rightarrow> real" where
  "entertainment_spent_fp series_sum st =
     series_sum (map snd (filter (\<lambda>(c, a). str_contains ''Entertainment'' c) (category_rows_fp st)))"

definition get_spending_insights_fp :: "(real list \<Rightarrow> real) \<Rightarrow> db \<Rightarrow> string list" where
  "get_spending_insights_fp series_sum st =
     (let recommendations = [];
          recommendations =
            (if dining_spent_fp series_sum st > fmul (total_spent_fp series_sum st) (round64 0.2)
             then recommendations @ [dining_message]
             else recommendations);
          recommendations =
            (if entertainment_spent_fp series_sum st
                  > fmul (total_spent_fp series_sum st) (round64 0.15)
             then recommendations @ [entertainment_message]
             else recommendations);
          recommendations =
            (if recommendations = [] then recommendations @ [affirming_message]
             else recommendations)
      in recommendations)"

section \<open>The states the callbacks reach\<close>

text \<open>
  The callbacks that change the table are \<open>add_expense\<close>, \<open>delete_expense\<close> and
  \<open>delete_all_expenses\<close>; the states they reach from an empty database are given by an
  inductive predicate. \<open>store_inv\<close> collects what holds in all of them: every row passed
  the checks of \<open>add_expense\<close>, an empty table has no \<^verbatim>\<open>sqlite_sequence\<close> row, the ids
  are strictly ascending, and none is above the sequence value.
\<close>

definition store_inv :: "db \<Rightarrow> bool" where
  "store_inv st =
     (list_all (\<lambda>r. validate_date (exp_date r) \<and> exp_category r \<noteq> [] \<and> 0 < exp_amount r)
        (expenses st)
      \<and> (expenses st = [] \<longrightarrow> sqlite_sequence st = None)
      \<and> sorted_wrt (<) (map exp_id (expenses st))
      \<and> largest_rowid (expenses st) \<le> seq_value st)"

inductive reachable :: "(string \<Rightarrow> real option) \<Rightarrow> db \<Rightarrow> bool" for pyfloat where
  fresh: "reachable pyfloat fresh_db"
| add: "reachable pyfloat st \<Longrightarrow> add_expense pyfloat d c a st = Inr (msg, st')
        \<Longrightarrow> reachable pyfloat st'"
| delete: "reachable pyfloat st \<Longrightarrow> reachable pyfloat (snd (delete_expense sel st))"
| delete_all: "reachable pyfloat st \<Longrightarrow> reachable pyfloat (snd (delete_all_expenses st))"

section \<open>Example states\<close>

text \<open>Small databases on which the theorems below are evaluated.\<close>

definition db_one :: db where
  "db_one =
     \<lparr>expenses = [\<lparr>exp_id = 1, exp_date = ''2024-01-05'', exp_category = ''Food'',
                    exp_amount = 50\<rparr>],
      sqlite_sequence = Some 1\<rparr>"

definition db_two :: db where
  "db_two =
     \<lparr>expenses = [\<lparr>exp_id = 1, exp_date = ''2024-01-05'', exp_category = ''Food'',
                    exp_amount = 50\<rparr>,
                  \<lparr>exp_id = 2, exp_date = ''2024-01-20'', exp_category = ''Dining Out'',
                    exp_amount = 40\<rparr>],
      sqlite_sequence = Some 2\<rparr>"

definition added_first :: db where
  "added_first =
     \<lparr>expenses = [\<lparr>exp_id = 1, exp_date = ''2024-1-5'', exp_category = ''Food'',
                    exp_amount = 5\<rparr>],
      sqlite_sequence = Some 1\<rparr>"

text \<open>\<open>db_two\<close> after its second row was deleted, and after one more expense was added.\<close>

definition db_gap :: db where
  "db_gap =
     \<lparr>expenses = [\<lparr>exp_id = 1, exp_date = ''2024-01-05'', exp_category = ''Food'',
                    exp_amount = 50\<rparr>],
      sqlite_sequence = Some 2\<rparr>"

definition db_gap_added :: db where
  "db_gap_added =
     \<lparr>expenses = [\<lparr>exp_id = 1, exp_date = ''2024-01-05'', exp_category = ''Food'',
                    exp_amount = 50\<rparr>,
                  \<lparr>exp_id = 3, exp_date = ''2024-01-05'', exp_category = ''Food'',
                    exp_amount = 5\<rparr>],
      sqlite_sequence = Some 3\<rparr>"

text \<open>Two categories that contain \<^verbatim>\<open>Dining Out\<close>, and a table where both rules fire.\<close>

definition db_split :: db where
  "db_split =
     \<lparr>expenses = [\<lparr>exp_id = 1, exp_date = ''2024-01-05'', exp_category = ''Dining Out'',
                    exp_amount = 15\<rparr>,
                  \<lparr>exp_id = 2, exp_date = ''2024-01-20'', exp_category = ''Rent'',
                    exp_amount = 70\<rparr>,
                  \<lparr>exp_id = 3, exp_date = ''2024-02-01'', exp_category = ''dining out lunch'',
                    exp_amount = 15\<rparr>],
      sqlite_sequence = Some 3\<rparr>"

definition db_both :: db where
  "db_both =
     \<lparr>expenses = [\<lparr>exp_id = 1, exp_date = ''2024-01-05'', exp_category = ''Food'',
                    exp_amount = 50\<rparr>,
                  \<lparr>exp_id = 2, exp_date = ''2024-01-20'', exp_category = ''Dining Out'',
                    exp_amount = 40\<rparr>,
                  \<lparr>exp_id = 3, exp_date = ''2024-02-01'', exp_category = ''Food'',
                    exp_amount = 10\<rparr>,
                  \<lparr>exp_id = 4, exp_date = ''2023-12-31'', exp_category = ''Home ENTERTAINMENT'',
                    exp_amount = 30\<rparr>],
      sqlite_sequence = Some 4\<rparr>"





definition db_threshold :: db where
  "db_threshold =
     \<lparr>expenses =
        [\<lparr>exp_id = 1, exp_date = ''2024-01-05'', exp_category = ''Entertainment'',
          exp_amount = round64 (21 / 100)\<rparr>,
         \<lparr>exp_id = 2, exp_date = ''2024-01-06'', exp_category = ''Other'',
          exp_amount = round64 (119 / 100)\<rparr>],
      sqlite_sequence = Some 2\<rparr>"

section \<open>Properties of validation and of the identifier sequence\<close>

lemmas date_defs =
  validate_date_def strptime_def format_regex_match_def match_lit_def match_m_def match_d_def
  two_chars_def one_char_def space_digit_def digit_def number_def digit_val_def
  datetime_date_def days_in_month_def is_leap_def

lemmas insert_defs =
  insert_expense_def next_rowid_def largest_rowid_def seq_value_def max_rowid_def

lemma validate_date_unpadded: "validate_date ''2024-1-5''"
  by (simp add: date_defs)

lemma validate_date_padded: "validate_date ''2024-01-05''"
  by (simp add: date_defs)

lemma digit_iff:
  "digit c \<longleftrightarrow> c = CHR ''0'' \<or> c = CHR ''1'' \<or> c = CHR ''2'' \<or> c = CHR ''3'' \<or> c = CHR ''4''
     \<or> c = CHR ''5'' \<or> c = CHR ''6'' \<or> c = CHR ''7'' \<or> c = CHR ''8'' \<or> c = CHR ''9''"
  by (auto simp: digit_def)

text \<open>
  A month of two digits in 1..12 is matched by one of the first two alternatives of
  \<^verbatim>\<open>%m\<close>; the alternative of one digit leaves a digit where the dash must follow.
\<close>

lemma month_match:
  assumes "digit m1" and "digit m2" and "1 \<le> number [m1, m2]" and "number [m1, m2] \<le> 12"
  shows "concat (map (\<lambda>(m, r3). concat (map (H m) (match_lit CHR ''-'' r3)))
                  (match_m (m1 # m2 # CHR ''-'' # rest)))
           = H (number [m1, m2]) rest"
  using assms unfolding digit_iff
  apply (elim disjE)
  apply (simp_all add: match_m_def two_chars_def one_char_def match_lit_def number_def digit_val_def)
  done

lemma day_match:
  assumes "digit d1" and "digit d2" and "1 \<le> number [d1, d2]" and "number [d1, d2] \<le> 31"
  shows "\<exists>more. match_d [d1, d2] = (number [d1, d2], []) # more"
  using assms unfolding digit_iff
  apply (elim disjE)
  apply (simp_all add: match_d_def two_chars_def one_char_def space_digit_def number_def
      digit_val_def digit_def)
  done

lemma days_in_month_le: "days_in_month y m \<le> 31"
  by (simp add: days_in_month_def)

text \<open>
  Every date in the form the specification asks for passes \<open>validate_date\<close>. The converse
  fails, as \<open>validate_date_unpadded\<close> shows.
\<close>

lemma spec_valid_date_accepted:
  assumes "spec_valid_date s"
  shows "validate_date s"
proof -
  from assms obtain y1 y2 y3 y4 m1 m2 d1 d2 where
    s: "s = [y1, y2, y3, y4, CHR ''-'', m1, m2, CHR ''-'', d1, d2]"
    and dy: "digit y1" "digit y2" "digit y3" "digit y4"
    and dm: "digit m1" "digit m2" and dd: "digit d1" "digit d2"
    and ok: "datetime_date (number [y1, y2, y3, y4]) (number [m1, m2]) (number [d1, d2])"
    by (cases s rule: spec_valid_date.cases) simp_all
  from ok have m: "1 \<le> number [m1, m2]" "number [m1, m2] \<le> 12"
    and d: "1 \<le> number [d1, d2]" "number [d1, d2] \<le> 31"
    using days_in_month_le [of "number [y1, y2, y3, y4]" "number [m1, m2]"]
    by (simp_all add: datetime_date_def)
  from day_match [OF dd d] obtain more where
    md: "match_d [d1, d2] = (number [d1, d2], []) # more" by blast
  have "format_regex_match s =
      concat (map (\<lambda>(m, r3). concat (map (\<lambda>r4. map (\<lambda>(d, r5). ((number [y1, y2, y3, y4], m, d), r5))
                                                 (match_d r4))
                                          (match_lit CHR ''-'' r3)))
                  (match_m (m1 # m2 # CHR ''-'' # [d1, d2])))"
    using dy by (simp add: format_regex_match_def s match_lit_def)
  also have "\<dots> = map (\<lambda>(d, r5). ((number [y1, y2, y3, y4], number [m1, m2], d), r5)) (match_d [d1, d2])"
    by (rule month_match [OF dm m])
  finally have "format_regex_match s =
      ((number [y1, y2, y3, y4], number [m1, m2], number [d1, d2]), [])
      # map (\<lambda>(d, r5). ((number [y1, y2, y3, y4], number [m1, m2], d), r5)) more"
    by (simp add: md)
  with ok show ?thesis
    by (simp add: validate_date_def strptime_def)
qed

lemma float_of_numeral_5: "float_of_numeral ''5'' = Some 5"
  by (simp add: float_of_numeral_def digit_def number_def digit_val_def)

lemma add_expense_invalid:
  assumes "\<not> (validate_date d \<and> c \<noteq> [] \<and> validate_amount pf a)"
  shows "add_expense pf d c a st =
           Inr (if \<not> validate_date d then ''Invalid date! Use YYYY-MM-DD format.''
                else if c = [] then ''Category cannot be empty.''
                else ''Invalid amount! Enter a positive number.'', st)"
  using assms by (auto simp: add_expense_def)

lemma add_expense_valid:
  assumes "validate_date d" and "c \<noteq> []" and "pf a = Some x" and "0 < x"
    and "next_rowid st \<le> max_rowid"
  shows "add_expense pf d c a st =
           Inr (''Expense added successfully!'',
                \<lparr>expenses = expenses st @
                   [\<lparr>exp_id = next_rowid st, exp_date = d, exp_category = c, exp_amount = x\<rparr>],
                 sqlite_sequence = Some (next_rowid st)\<rparr>)"
  using assms by (simp add: add_expense_def validate_amount_def insert_expense_def)

lemma add_expense_success:
  assumes "add_expense pf d c a st = Inr (''Expense added successfully!'', st')"
  shows "validate_date d \<and> c \<noteq> [] \<and> next_rowid st \<le> max_rowid \<and>
         (\<exists>x. pf a = Some x \<and> 0 < x \<and>
            st' = \<lparr>expenses = expenses st @
                      [\<lparr>exp_id = next_rowid st, exp_date = d, exp_category = c, exp_amount = x\<rparr>],
                    sqlite_sequence = Some (next_rowid st)\<rparr>)"
  using assms
  by (auto simp: add_expense_def validate_amount_def insert_expense_def
      split: if_splits option.splits sum.splits)

lemma largest_rowid_ge: "r \<in> set rs \<Longrightarrow> exp_id r \<le> largest_rowid rs"
  by (induction rs) (auto simp: largest_rowid_def)

lemma next_rowid_fresh: "next_rowid fresh_db = 1"
  by (simp add: next_rowid_def largest_rowid_def seq_value_def fresh_db_def)

lemma fold_delete_by_id:
  "fold delete_by_id sel rs = filter (\<lambda>r. exp_id r \<notin> set sel) rs"
proof (induction sel arbitrary: rs)
  case Nil
  show ?case by simp
next
  case (Cons i sel)
  have "fold delete_by_id (i # sel) rs = fold delete_by_id sel (delete_by_id i rs)"
    by simp
  also have "\<dots> = filter (\<lambda>r. exp_id r \<notin> set sel) (filter (\<lambda>r. exp_id r \<noteq> i) rs)"
    by (simp add: Cons.IH delete_by_id_def)
  also have "\<dots> = filter (\<lambda>r. exp_id r \<notin> set (i # sel)) rs"
    by (auto intro: filter_cong)
  finally show ?case .
qed

lemma delete_expense_rows:
  "expenses (snd (delete_expense sel st)) = filter (\<lambda>r. exp_id r \<notin> set sel) (expenses st)"
  by (simp add: delete_expense_def Let_def fold_delete_by_id)

lemma fresh_db_sel: "expenses fresh_db = []" "sqlite_sequence fresh_db = None"
  by (simp_all add: fresh_db_def)

lemma delete_expense_empty_reset:
  assumes "expenses (snd (delete_expense sel st)) = []"
    and "sel \<noteq> [] \<or> sqlite_sequence st = None"
  shows "snd (delete_expense sel st) = fresh_db"
  using assms by (auto simp: delete_expense_def Let_def fresh_db_def split: if_splits)

lemma delete_expense_keeps_sequence:
  assumes "expenses (snd (delete_expense sel st)) \<noteq> []"
  shows "sqlite_sequence (snd (delete_expense sel st)) = sqlite_sequence st"
  using assms by (auto simp: delete_expense_def Let_def split: if_splits)

lemma next_rowid_gt: "r \<in> set (expenses st) \<Longrightarrow> exp_id r < next_rowid st"
  using largest_rowid_ge [of r "expenses st"] by (simp add: next_rowid_def)

lemma add_expense_fresh_id:
  assumes "add_expense pf d c a fresh_db = Inr (''Expense added successfully!'', st1)"
  shows "map exp_id (expenses st1) = [1]"
proof -
  from add_expense_success [OF assms] obtain x where
    "st1 = \<lparr>expenses = expenses fresh_db @
              [\<lparr>exp_id = next_rowid fresh_db, exp_date = d, exp_category = c, exp_amount = x\<rparr>],
            sqlite_sequence = Some (next_rowid fresh_db)\<rparr>"
    by blast
  then show ?thesis by (simp add: next_rowid_fresh fresh_db_sel)
qed

lemma add_expense_new_row:
  assumes "add_expense pf d c a st = Inr (''Expense added successfully!'', st2)"
  shows "\<exists>r. expenses st2 = expenses st @ [r] \<and> exp_id r = next_rowid st
               \<and> seq_value st < exp_id r \<and> (\<forall>q \<in> set (expenses st). exp_id q < exp_id r)
               \<and> sqlite_sequence st2 = Some (exp_id r)
               \<and> (sorted_wrt (<) (map exp_id (expenses st))
                    \<longrightarrow> sorted_wrt (<) (map exp_id (expenses st2)))"
proof -
  from add_expense_success [OF assms] obtain x where
    st2: "st2 = \<lparr>expenses = expenses st @
                   [\<lparr>exp_id = next_rowid st, exp_date = d, exp_category = c, exp_amount = x\<rparr>],
                 sqlite_sequence = Some (next_rowid st)\<rparr>"
    by blast
  define r where "r = \<lparr>exp_id = next_rowid st, exp_date = d, exp_category = c, exp_amount = x\<rparr>"
  have id: "exp_id r = next_rowid st" by (simp add: r_def)
  have rows: "expenses st2 = expenses st @ [r]" by (simp add: st2 r_def)
  have seq: "sqlite_sequence st2 = Some (exp_id r)" by (simp add: st2 r_def)
  have gt: "\<forall>q \<in> set (expenses st). exp_id q < exp_id r"
    by (simp add: next_rowid_gt id)
  have sv: "seq_value st < exp_id r" by (simp add: id next_rowid_def)
  have "sorted_wrt (<) (map exp_id (expenses st))
                    \<longrightarrow> sorted_wrt (<) (map exp_id (expenses st2))"
    using gt by (simp add: rows sorted_wrt_append)
  with id rows seq gt sv show ?thesis by (intro exI [of _ r]) simp
qed

lemma delete_expense_db_one: "delete_expense [1] db_one = (''Selected expenses deleted successfully!'', fresh_db)"
  by (simp add: delete_expense_def db_one_def delete_by_id_def fresh_db_def)

lemma delete_expense_db_two: "delete_expense [2] db_two = (''Selected expenses deleted successfully!'', db_gap)"
  by (simp add: delete_expense_def db_two_def delete_by_id_def db_gap_def)

lemma add_expense_fresh_db:
  "add_expense float_of_numeral ''2024-1-5'' ''Food'' ''5'' fresh_db =
     Inr (''Expense added successfully!'', added_first)"
  by (simp add: add_expense_def validate_date_unpadded float_of_numeral_5 validate_amount_def
      insert_defs fresh_db_def added_first_def)

lemma add_expense_db_gap:
  "add_expense float_of_numeral ''2024-01-05'' ''Food'' ''5'' db_gap =
     Inr (''Expense added successfully!'', db_gap_added)"
  by (simp add: add_expense_def validate_date_padded float_of_numeral_5 validate_amount_def
      insert_defs db_gap_def db_gap_added_def)

lemma length_filter_split:
  "length (filter P xs) + length (filter (\<lambda>x. \<not> P x) xs) = length xs"
  by (induction xs) auto

lemma delete_expense_absent:
  assumes "set sel \<inter> exp_id ` set (expenses st) = {}"
  shows "expenses (snd (delete_expense sel st)) = expenses st"
proof -
  have "\<forall>r \<in> set (expenses st). exp_id r \<notin> set sel"
    using assms by auto
  then show ?thesis
    by (simp add: delete_expense_rows)
qed

text \<open>The invariant holds in every state the callbacks reach.\<close>

lemma store_inv_fresh: "store_inv fresh_db"
  by (simp add: store_inv_def fresh_db_def largest_rowid_def seq_value_def)

lemma largest_rowid_append:
  "largest_rowid (rs @ [r]) = max (largest_rowid rs) (exp_id r)"
  by (induction rs) (simp_all add: largest_rowid_def max.assoc)

lemma largest_rowid_filter: "largest_rowid (filter P rs) \<le> largest_rowid rs"
  by (induction rs) (auto simp: largest_rowid_def)

lemma store_inv_add:
  assumes "store_inv st" and "add_expense pf d c a st = Inr (msg, st')"
  shows "store_inv st'"
proof (cases "msg = ''Expense added successfully!''")
  case True
  with assms(2) have ok: "add_expense pf d c a st = Inr (''Expense added successfully!'', st')"
    by simp
  from add_expense_success [OF ok] obtain x where
    v: "validate_date d" "c \<noteq> []" "0 < x"
    and st': "st' = \<lparr>expenses = expenses st @
                      [\<lparr>exp_id = next_rowid st, exp_date = d, exp_category = c, exp_amount = x\<rparr>],
                    sqlite_sequence = Some (next_rowid st)\<rparr>"
    by blast
  from add_expense_new_row [OF ok] assms(1)
  have sorted: "sorted_wrt (<) (map exp_id (expenses st'))"
    by (auto simp: store_inv_def)
  have "largest_rowid (expenses st') \<le> seq_value st'"
    by (simp add: st' largest_rowid_append seq_value_def next_rowid_def)
  with assms(1) v sorted show ?thesis
    by (simp add: store_inv_def st')
next
  case False
  with assms(2) have "st' = st"
    by (auto simp: add_expense_def insert_expense_def split: if_splits option.splits sum.splits)
  with assms(1) show ?thesis by simp
qed

lemma store_inv_delete:
  assumes "store_inv st"
  shows "store_inv (snd (delete_expense sel st))"
proof (cases "sel = []")
  case True
  with assms show ?thesis by (simp add: delete_expense_def)
next
  case False
  let ?rs = "filter (\<lambda>r. exp_id r \<notin> set sel) (expenses st)"
  have rows: "expenses (snd (delete_expense sel st)) = ?rs"
    by (rule delete_expense_rows)
  from assms have a: "list_all (\<lambda>r. validate_date (exp_date r) \<and> exp_category r \<noteq> [] \<and> 0 < exp_amount r) ?rs"
    by (simp add: store_inv_def list_all_iff)
  from assms have b: "sorted_wrt (<) (map exp_id ?rs)"
    by (simp add: store_inv_def sorted_wrt_map sorted_wrt_filter)
  show ?thesis
  proof (cases "?rs = []")
    case True
    with False have "snd (delete_expense sel st) = fresh_db"
      using delete_expense_empty_reset [of sel st] rows by simp
    then show ?thesis by (simp add: store_inv_fresh)
  next
    case nonempty: False
    then have seq: "sqlite_sequence (snd (delete_expense sel st)) = sqlite_sequence st"
      using delete_expense_keeps_sequence [of sel st] rows by simp
    have "largest_rowid ?rs \<le> largest_rowid (expenses st)"
      by (rule largest_rowid_filter)
    with assms have "largest_rowid ?rs \<le> seq_value (snd (delete_expense sel st))"
      by (simp add: store_inv_def seq_value_def seq)
    with a b nonempty show ?thesis
      by (simp add: store_inv_def rows)
  qed
qed

lemma reachable_store_inv:
  assumes "reachable pf st"
  shows "store_inv st"
  using assms
proof (induction rule: reachable.induct)
  case fresh
  show ?case by (rule store_inv_fresh)
next
  case (add st d c a msg st')
  then show ?case by (blast intro: store_inv_add)
next
  case (delete st sel)
  then show ?case by (simp add: store_inv_delete)
next
  case (delete_all st)
  show ?case by (simp add: delete_all_expenses_def store_inv_fresh [unfolded fresh_db_def])
qed

lemma reachable_added_first: "reachable float_of_numeral added_first"
  using reachable.add [OF reachable.fresh add_expense_fresh_db] .

text \<open>
  C1 (evaluation at the failing input). \<open>add_expense\<close> stores the date \<^verbatim>\<open>2024-1-5\<close>, which is
  not in the zero-padded \<^verbatim>\<open>YYYY-MM-DD\<close> form: \<^verbatim>\<open>strptime\<close> takes a month and a day without
  their leading zero.
\<close>

theorem add_expense_accepts_unpadded_date:
  "\<not> spec_valid_date ''2024-1-5'' \<and>
   add_expense float_of_numeral ''2024-1-5'' ''Food'' ''5'' fresh_db =
     Inr (''Expense added successfully!'',
          \<lparr>expenses = [\<lparr>exp_id = 1, exp_date = ''2024-1-5'', exp_category = ''Food'',
                          exp_amount = 5\<rparr>],
           sqlite_sequence = Some 1\<rparr>)"
  by (simp add: add_expense_def validate_date_unpadded float_of_numeral_5 validate_amount_def
      insert_defs fresh_db_def)

text \<open>
  C2. A delete that leaves no expense, and \<open>delete_all_expenses\<close> in every case, leave the
  database as a fresh one, with no \<^verbatim>\<open>sqlite_sequence\<close> row, so the next expense that is
  added gets the id 1. (With an empty selection \<open>delete_expense\<close> deletes nothing; the
  table can then only be empty if it was before, and the sequence row is gone whenever
  it was gone before, as it is in every state the callbacks reach.) While expenses
  remain, a delete leaves the sequence row as it is, and every add gives the new
  expense an id above the sequence value and above all stored ids, at the end of the
  table, so the ids stay strictly increasing.
\<close>

theorem identifier_sequence:
  "(expenses (snd (delete_expense sel st)) = [] \<and> (sel \<noteq> [] \<or> sqlite_sequence st = None)
      \<longrightarrow> snd (delete_expense sel st) = fresh_db)
   \<and> snd (delete_all_expenses st) = fresh_db
   \<and> (add_expense pf d c a fresh_db = Inr (''Expense added successfully!'', st1)
      \<longrightarrow> map exp_id (expenses st1) = [1])
   \<and> (expenses (snd (delete_expense sel st)) \<noteq> []
      \<longrightarrow> sqlite_sequence (snd (delete_expense sel st)) = sqlite_sequence st)
   \<and> (add_expense pf d c a st = Inr (''Expense added successfully!'', st2)
      \<longrightarrow> (\<exists>r. expenses st2 = expenses st @ [r] \<and> exp_id r = next_rowid st
               \<and> seq_value st < exp_id r \<and> (\<forall>q \<in> set (expenses st). exp_id q < exp_id r)
               \<and> sqlite_sequence st2 = Some (exp_id r)
               \<and> (sorted_wrt (<) (map exp_id (expenses st))
                    \<longrightarrow> sorted_wrt (<) (map exp_id (expenses st2)))))"
  using delete_expense_empty_reset [of sel st] delete_expense_keeps_sequence [of sel st]
    add_expense_fresh_id [of pf d c a st1] add_expense_new_row [of pf d c a st st2]
  by (simp add: delete_all_expenses_def fresh_db_def [symmetric])

theorem identifier_sequence_witness:
  "expenses (snd (delete_expense [1] db_one)) = []
   \<and> snd (delete_expense [1] db_one) = fresh_db
   \<and> snd (delete_all_expenses db_two) = fresh_db
   \<and> add_expense float_of_numeral ''2024-1-5'' ''Food'' ''5'' fresh_db =
        Inr (''Expense added successfully!'', added_first)
   \<and> map exp_id (expenses added_first) = [1]
   \<and> expenses (snd (delete_expense [2] db_two)) \<noteq> []
   \<and> sqlite_sequence (snd (delete_expense [2] db_two)) = sqlite_sequence db_two
   \<and> add_expense float_of_numeral ''2024-01-05'' ''Food'' ''5'' db_gap =
        Inr (''Expense added successfully!'', db_gap_added)
   \<and> sorted_wrt (<) (map exp_id (expenses db_gap))
   \<and> sorted_wrt (<) (map exp_id (expenses db_gap_added))"
proof -
  have h1: "expenses (snd (delete_expense [1] db_one)) = []"
    by (simp add: delete_expense_def db_one_def delete_by_id_def)
  have h2: "expenses (snd (delete_expense [2] db_two)) \<noteq> []"
    by (simp add: delete_expense_def db_two_def delete_by_id_def)
  have h3: "sorted_wrt (<) (map exp_id (expenses db_gap))"
    by (simp add: db_gap_def)
  note a = identifier_sequence [of "[1]" db_one float_of_numeral "''2024-1-5''" "''Food''" "''5''"
      added_first added_first]
  note b = identifier_sequence [of "[2]" db_two float_of_numeral "''2024-1-5''" "''Food''" "''5''"
      added_first added_first]
  note c = identifier_sequence [of "[1]" db_gap float_of_numeral "''2024-01-05''" "''Food''" "''5''"
      added_first db_gap_added]
  have c1: "snd (delete_expense [1] db_one) = fresh_db" using a h1 by simp
  have c2: "snd (delete_all_expenses db_two) = fresh_db" using b by simp
  have c3: "map exp_id (expenses added_first) = [1]" using a add_expense_fresh_db by simp
  have c4: "sqlite_sequence (snd (delete_expense [2] db_two)) = sqlite_sequence db_two"
    using b h2 by simp
  have c5: "sorted_wrt (<) (map exp_id (expenses db_gap_added))"
    using c add_expense_db_gap h3 by blast
  show ?thesis using h1 h2 h3 c1 c2 c3 c4 c5 add_expense_fresh_db add_expense_db_gap by simp
qed


section \<open>Deleting\<close>

text \<open>
  C3, as the code has it. For every selection, \<open>delete_expense\<close> removes exactly the
  expenses whose id is selected and leaves every other expense as it was. What it
  reports is one of two fixed texts on the status label, not a count: the number of
  rows that went is the number of stored expenses with a selected id, but the callback
  does not compute it. Ids that are not in the table change nothing in the table, and
  nothing at all in a state without a stale sequence row. The function has no
  exception among its results.
\<close>

theorem delete_expense_removes_selected:
  "expenses (snd (delete_expense sel st)) = filter (\<lambda>r. exp_id r \<notin> set sel) (expenses st)
   \<and> fst (delete_expense sel st) =
        (if sel \<noteq> [] then ''Selected expenses deleted successfully!''
         else ''Please select an expense to delete!'')
   \<and> length (expenses (snd (delete_expense sel st)))
        + length (filter (\<lambda>r. exp_id r \<in> set sel) (expenses st)) = length (expenses st)
   \<and> (set sel \<inter> exp_id ` set (expenses st) = {}
        \<longrightarrow> expenses (snd (delete_expense sel st)) = expenses st)
   \<and> (set sel \<inter> exp_id ` set (expenses st) = {} \<and> (expenses st = [] \<longrightarrow> sqlite_sequence st = None)
        \<longrightarrow> snd (delete_expense sel st) = st)"
proof (intro conjI impI)
  show "expenses (snd (delete_expense sel st)) = filter (\<lambda>r. exp_id r \<notin> set sel) (expenses st)"
    by (rule delete_expense_rows)
  show "fst (delete_expense sel st) =
        (if sel \<noteq> [] then ''Selected expenses deleted successfully!''
         else ''Please select an expense to delete!'')"
    by (simp add: delete_expense_def Let_def)
  show "length (expenses (snd (delete_expense sel st)))
        + length (filter (\<lambda>r. exp_id r \<in> set sel) (expenses st)) = length (expenses st)"
    using length_filter_split [of "\<lambda>r. exp_id r \<notin> set sel" "expenses st"]
    by (simp add: delete_expense_rows)
next
  assume "set sel \<inter> exp_id ` set (expenses st) = {}"
  then show "expenses (snd (delete_expense sel st)) = expenses st"
    by (rule delete_expense_absent)
next
  assume a: "set sel \<inter> exp_id ` set (expenses st) = {} \<and>
    (expenses st = [] \<longrightarrow> sqlite_sequence st = None)"
  then have rows: "fold delete_by_id sel (expenses st) = expenses st"
    using delete_expense_absent [of sel st] by (simp add: delete_expense_rows fold_delete_by_id)
  show "snd (delete_expense sel st) = st"
  proof (cases "expenses st = []")
    case True
    with a rows show ?thesis by (simp add: delete_expense_def Let_def)
  next
    case False
    with rows show ?thesis by (simp add: delete_expense_def Let_def)
  qed
qed

text \<open>
  C3 as stated fails: deleting no row, one row and two rows of \<open>db_two\<close> gives the same
  result, so the result is not the number of expenses deleted.
\<close>

theorem delete_expense_reports_no_count:
  "fst (delete_expense [7] db_two) = fst (delete_expense [2] db_two)
   \<and> fst (delete_expense [2] db_two) = fst (delete_expense [2, 1] db_two)
   \<and> length (expenses db_two) = 2
   \<and> length (expenses (snd (delete_expense [7] db_two))) = 2
   \<and> length (expenses (snd (delete_expense [2] db_two))) = 1
   \<and> length (expenses (snd (delete_expense [2, 1] db_two))) = 0"
  by (simp add: delete_expense_def db_two_def delete_by_id_def)

theorem delete_expense_removes_selected_witness:
  "set [7] \<inter> exp_id ` set (expenses db_two) = {}
   \<and> expenses db_two \<noteq> []
   \<and> snd (delete_expense [7] db_two) = db_two
   \<and> expenses (snd (delete_expense [7] db_two)) = expenses db_two
   \<and> fst (delete_expense [7] db_two) = ''Selected expenses deleted successfully!''"
proof -
  have h1: "set [7] \<inter> exp_id ` set (expenses db_two) = {}"
    by (simp add: db_two_def)
  have h2: "expenses db_two \<noteq> []"
    by (simp add: db_two_def)
  note t = delete_expense_removes_selected [of "[7]" db_two]
  have c1: "snd (delete_expense [7] db_two) = db_two"
    using t h1 h2 by blast
  have c2: "expenses (snd (delete_expense [7] db_two)) = expenses db_two"
    using t h1 by blast
  have c3: "fst (delete_expense [7] db_two) = ''Selected expenses deleted successfully!''"
    using t by simp
  from h1 h2 c1 c2 c3 show ?thesis by blast
qed

section \<open>Sums over groups\<close>

lemma total_expense_Nil: "total_expense [] = 0" by (simp add: total_expense_def)

lemma total_expense_Cons: "total_expense (r # rs) = exp_amount r + total_expense rs" by (simp add: total_expense_def)

lemma total_expense_disjoint:
  assumes "\<And>r. r \<in> set rs \<Longrightarrow> \<not> (P r \<and> Q r)"
  shows "total_expense (filter P rs) + total_expense (filter Q rs) = total_expense (filter (\<lambda>r. P r \<or> Q r) rs)"
  using assms by (induction rs) (auto simp: total_expense_Nil total_expense_Cons)

lemma sum_groups:
  assumes "distinct ks"
  shows "(\<Sum>k\<leftarrow>ks. total_expense (filter (\<lambda>r. key r = k) rs))
           = total_expense (filter (\<lambda>r. key r \<in> set ks) rs)"
  using assms
proof (induction ks)
  case Nil
  show ?case by (simp add: total_expense_Nil)
next
  case (Cons k ks)
  then have k: "k \<notin> set ks" and d: "distinct ks" by simp_all
  have "(\<Sum>j\<leftarrow>k # ks. total_expense (filter (\<lambda>r. key r = j) rs))
          = total_expense (filter (\<lambda>r. key r = k) rs) + total_expense (filter (\<lambda>r. key r \<in> set ks) rs)"
    by (simp add: Cons.IH [OF d])
  also have "\<dots> = total_expense (filter (\<lambda>r. key r = k \<or> key r \<in> set ks) rs)"
    using k by (intro total_expense_disjoint) auto
  finally show ?case by simp
qed

lemma group_by_sum_keys: "map fst (group_by_sum key rs) = sort (remdups (map key rs))"
  by (simp add: group_by_sum_def comp_def)

lemma group_by_sum_values:
  "map snd (group_by_sum key rs)
     = map (\<lambda>k. total_expense (filter (\<lambda>r. key r = k) rs)) (sort (remdups (map key rs)))"
  by (simp add: group_by_sum_def comp_def)

lemma group_by_sum_filter:
  "sum_list (map snd (filter (\<lambda>(k, v). P k) (group_by_sum key rs)))
     = total_expense (filter (\<lambda>r. P (key r)) rs)"
proof -
  let ?ks = "sort (remdups (map key rs))"
  have "filter (\<lambda>(k, v). P k) (group_by_sum key rs)
          = map (\<lambda>k. (k, total_expense (filter (\<lambda>r. key r = k) rs))) (filter P ?ks)"
    by (simp add: group_by_sum_def filter_map comp_def)
  then have "sum_list (map snd (filter (\<lambda>(k, v). P k) (group_by_sum key rs)))
          = (\<Sum>k\<leftarrow>filter P ?ks. total_expense (filter (\<lambda>r. key r = k) rs))"
    by (simp add: comp_def)
  also have "\<dots> = total_expense (filter (\<lambda>r. key r \<in> set (filter P ?ks)) rs)"
    by (rule sum_groups) simp
  also have "\<dots> = total_expense (filter (\<lambda>r. P (key r)) rs)"
    by (rule arg_cong [where f = total_expense], rule filter_cong) auto
  finally show ?thesis .
qed

lemma group_by_sum_total: "sum_list (map snd (group_by_sum key rs)) = total_expense rs"
  using group_by_sum_filter [of "\<lambda>k. True" key rs] by simp

text \<open>
  In exact arithmetic the totals of the month groups add up to the total of all
  expenses, and so do the totals of the category groups.
\<close>

lemma group_totals_exact:
  "sum_list (snd (generate_spending_chart st)) = total_expense (fst (view_expenses st))
   \<and> sum_list (snd (generate_category_pie_chart st)) = total_expense (fst (view_expenses st))
   \<and> snd (view_expenses st) = total_expense (fst (view_expenses st))"
  by (simp add: generate_spending_chart_def generate_category_pie_chart_def monthly_rows_def
      category_rows_def group_by_sum_total view_expenses_def Let_def)

section \<open>Sums of doubles\<close>


















lemma group_by_sum_with_sum_list: "group_by_sum_with sum_list key rs = group_by_sum key rs"
  by (simp add: group_by_sum_with_def group_by_sum_def total_expense_def)











section \<open>The date range report\<close>

lemma foldl_amounts: "foldl (\<lambda>t r. t + exp_amount r) a rs = a + total_expense rs"
  by (induction rs arbitrary: a) (simp_all add: total_expense_def)

text \<open>
  C7. For all bounds, \<open>generate_report\<close> shows exactly the rows of \<open>view_expenses\<close> whose
  date lies between the two bounds in the lexicographic order of strings, both bounds
  included, in the order of the table; its total is the total of these rows. This
  holds for every pair of bounds, also when the first is above the second.
\<close>

theorem generate_report_range:
  "fst (generate_report d1 d2 st)
     = filter (\<lambda>r. d1 \<le> exp_date r \<and> exp_date r \<le> d2) (fst (view_expenses st))
   \<and> (r \<in> set (fst (generate_report d1 d2 st))
        \<longleftrightarrow> r \<in> set (fst (view_expenses st)) \<and> d1 \<le> exp_date r \<and> exp_date r \<le> d2)
   \<and> snd (generate_report d1 d2 st) = total_expense (fst (generate_report d1 d2 st))"
  by (simp add: generate_report_def Let_def between_def view_expenses_def foldl_amounts)

theorem generate_report_range_witness:
  "fst (generate_report ''2024-01-05'' ''2024-02-01'' db_both)
     = [\<lparr>exp_id = 1, exp_date = ''2024-01-05'', exp_category = ''Food'', exp_amount = 50\<rparr>,
        \<lparr>exp_id = 2, exp_date = ''2024-01-20'', exp_category = ''Dining Out'', exp_amount = 40\<rparr>,
        \<lparr>exp_id = 3, exp_date = ''2024-02-01'', exp_category = ''Food'', exp_amount = 10\<rparr>]
   \<and> snd (generate_report ''2024-01-05'' ''2024-02-01'' db_both) = 100"
proof -
  have "filter (\<lambda>r. ''2024-01-05'' \<le> exp_date r \<and> exp_date r \<le> ''2024-02-01'')
          (fst (view_expenses db_both))
     = [\<lparr>exp_id = 1, exp_date = ''2024-01-05'', exp_category = ''Food'', exp_amount = 50\<rparr>,
        \<lparr>exp_id = 2, exp_date = ''2024-01-20'', exp_category = ''Dining Out'', exp_amount = 40\<rparr>,
        \<lparr>exp_id = 3, exp_date = ''2024-02-01'', exp_category = ''Food'', exp_amount = 10\<rparr>]"
    by code_simp
  with generate_report_range [of "''2024-01-05''" "''2024-02-01''" db_both]
  show ?thesis by (simp add: total_expense_def)
qed

section \<open>Properties of the recommendations\<close>

lemma total_spent_eq: "total_spent st = total_expense (expenses st)"
  by (simp add: total_spent_def category_rows_def group_by_sum_total)

lemma dining_spent_eq:
  "dining_spent st
     = total_expense (filter (\<lambda>r. str_contains ''Dining Out'' (exp_category r)) (expenses st))"
  by (simp add: dining_spent_def category_rows_def group_by_sum_filter)

lemma entertainment_spent_eq:
  "entertainment_spent st
     = total_expense (filter (\<lambda>r. str_contains ''Entertainment'' (exp_category r)) (expenses st))"
  by (simp add: entertainment_spent_def category_rows_def group_by_sum_filter)

lemma messages_distinct:
  "dining_message \<noteq> entertainment_message" "dining_message \<noteq> affirming_message"
  "entertainment_message \<noteq> affirming_message"
  by (simp_all add: dining_message_def entertainment_message_def affirming_message_def)

lemma get_spending_insights_cases:
  "get_spending_insights st =
     (if dining_spent st > total_spent st * 0.2
      then (if entertainment_spent st > total_spent st * 0.15
            then [dining_message, entertainment_message] else [dining_message])
      else (if entertainment_spent st > total_spent st * 0.15
            then [entertainment_message] else [affirming_message]))"
  by (simp add: get_spending_insights_def)

lemma total_expense_pos:
  assumes "\<forall>r \<in> set rs. 0 < exp_amount r" and "rs \<noteq> []"
  shows "0 < total_expense rs"
  using assms
proof (induction rs)
  case Nil
  then show ?case by simp
next
  case (Cons r rs)
  show ?case
  proof (cases "rs = []")
    case True
    with Cons.prems show ?thesis by (simp add: total_expense_def)
  next
    case False
    with Cons have "0 < total_expense rs" by simp
    moreover from Cons.prems have "0 < exp_amount r" by simp
    ultimately show ?thesis by (simp add: total_expense_Cons)
  qed
qed

text \<open>
  C10. The list of recommendations is never empty, and the affirming message is in it
  exactly when neither the dining rule nor the entertainment rule fires.
\<close>

theorem insights_never_empty:
  "get_spending_insights st \<noteq> []
   \<and> (affirming_message \<in> set (get_spending_insights st)
        \<longleftrightarrow> \<not> dining_spent st > total_spent st * 0.2
            \<and> \<not> entertainment_spent st > total_spent st * 0.15)"
  using messages_distinct by (simp add: get_spending_insights_cases)

theorem insights_never_empty_witness:
  "get_spending_insights db_split \<noteq> []
   \<and> affirming_message \<notin> set (get_spending_insights db_split)
   \<and> dining_spent db_split > total_spent db_split * 0.2"
proof -
  have d: "dining_spent db_split = 30" and t: "total_spent db_split = 100"
    and e: "entertainment_spent db_split = 0"
    by code_simp+
  from insights_never_empty [of db_split] d t show ?thesis by simp
qed

text \<open>
  C9. With no expenses the total spent is 0. When the total spent is 0 and every
  stored amount is positive, as \<open>add_expense\<close> makes it, neither rule fires and the
  result is the affirming message alone. The comparisons multiply the total; nothing
  is divided by it.
\<close>

theorem zero_total_only_affirming:
  "(expenses st = [] \<longrightarrow> total_spent st = 0)
   \<and> ((\<forall>r \<in> set (expenses st). 0 < exp_amount r) \<and> total_spent st = 0
        \<longrightarrow> \<not> dining_spent st > total_spent st * 0.2
            \<and> \<not> entertainment_spent st > total_spent st * 0.15
            \<and> get_spending_insights st = [affirming_message])"
proof (intro conjI impI)
  assume "expenses st = []"
  then show "total_spent st = 0"
    by (simp add: total_spent_eq total_expense_Nil)
next
  assume a: "(\<forall>r \<in> set (expenses st). 0 < exp_amount r) \<and> total_spent st = 0"
  have empty: "expenses st = []"
  proof (rule ccontr)
    assume "expenses st \<noteq> []"
    with a have "0 < total_expense (expenses st)" by (simp add: total_expense_pos)
    with a show False by (simp add: total_spent_eq)
  qed
  have d: "dining_spent st = 0" and e: "entertainment_spent st = 0"
    by (simp_all add: dining_spent_eq entertainment_spent_eq empty total_expense_Nil)
  from a d show "\<not> dining_spent st > total_spent st * 0.2" by simp
  from a e show "\<not> entertainment_spent st > total_spent st * 0.15" by simp
  from a d e show "get_spending_insights st = [affirming_message]"
    by (simp add: get_spending_insights_cases)
qed

theorem zero_total_only_affirming_witness:
  "expenses fresh_db = [] \<and> total_spent fresh_db = 0
   \<and> get_spending_insights fresh_db = [affirming_message]"
proof -
  have h: "expenses fresh_db = []" by (simp add: fresh_db_def)
  note t = zero_total_only_affirming [of fresh_db]
  from t h have z: "total_spent fresh_db = 0" by blast
  from t h z have "get_spending_insights fresh_db = [affirming_message]" by simp
  with h z show ?thesis by blast
qed


subsection \<open>The rounding of the thresholds\<close>
















subsection \<open>The rules\<close>

lemma get_spending_insights_fp_cases:
  "get_spending_insights_fp series_sum st =
     (if dining_spent_fp series_sum st > fmul (total_spent_fp series_sum st) (round64 0.2)
      then (if entertainment_spent_fp series_sum st
                 > fmul (total_spent_fp series_sum st) (round64 0.15)
            then [dining_message, entertainment_message] else [dining_message])
      else (if entertainment_spent_fp series_sum st
                 > fmul (total_spent_fp series_sum st) (round64 0.15)
            then [entertainment_message] else [affirming_message]))"
  by (simp add: get_spending_insights_fp_def)












lemma category_rows_db_threshold:
  "category_rows_fp db_threshold
     = [(''Entertainment'', 7566047373982433 / 36028797018963968), (''Other'', 2679641778285445 / 2251799813685248)]"
proof -
  have x: "expenses db_threshold =
     [\<lparr>exp_id = 1, exp_date = ''2024-01-05'', exp_category = ''Entertainment'',
       exp_amount = 7566047373982433 / 36028797018963968\<rparr>,
      \<lparr>exp_id = 2, exp_date = ''2024-01-06'', exp_category = ''Other'',
       exp_amount = 2679641778285445 / 2251799813685248\<rparr>]"
    by code_simp
  have g: "group_by_sum_with summation exp_category (expenses db_threshold)
     = [(''Entertainment'', summation [7566047373982433 / 36028797018963968]),
        (''Other'', summation [2679641778285445 / 2251799813685248])]" for summation
    unfolding x by code_simp
  have s: "sql_sum [7566047373982433 / 36028797018963968] = 7566047373982433 / 36028797018963968"
    "sql_sum [2679641778285445 / 2251799813685248] = 2679641778285445 / 2251799813685248"
    by code_simp+
  show ?thesis
    by (simp only: category_rows_fp_def g s)
qed

text \<open>
  The comparison is the one of doubles. On \<open>db_threshold\<close> the entertainment expenses are
  the double for 0.21 and the total is the double for 1.4; the first is more than 15% of
  the second, but the rounded product of the total and the double for 0.15 is the
  double for 0.21 itself, so the rule does not fire.
\<close>

lemma threshold_decided_by_rounding:
  "entertainment_spent_fp py_sum db_threshold = 7566047373982433 / 36028797018963968
   \<and> total_spent_fp py_sum db_threshold = 3152519739159347 / 2251799813685248
   \<and> entertainment_spent_fp py_sum db_threshold > total_spent_fp py_sum db_threshold * 0.15
   \<and> fmul (total_spent_fp py_sum db_threshold) (round64 0.15) = 7566047373982433 / 36028797018963968
   \<and> get_spending_insights_fp py_sum db_threshold = [affirming_message]"
proof -
  have p: "py_sum [7566047373982433 / 36028797018963968, 2679641778285445 / 2251799813685248] = 3152519739159347 / 2251799813685248"
    "py_sum [7566047373982433 / 36028797018963968] = 7566047373982433 / 36028797018963968" "py_sum [] = 0"
    by code_simp+
  have m: "\<not> str_contains ''Dining Out'' ''Entertainment''" "\<not> str_contains ''Dining Out'' ''Other''"
    "str_contains ''Entertainment'' ''Entertainment''" "\<not> str_contains ''Entertainment'' ''Other''"
    by code_simp+
  have t: "total_spent_fp py_sum db_threshold = 3152519739159347 / 2251799813685248"
    by (simp add: total_spent_fp_def category_rows_db_threshold p)
  have d: "dining_spent_fp py_sum db_threshold = 0"
    by (simp add: dining_spent_fp_def category_rows_db_threshold p m)
  have e: "entertainment_spent_fp py_sum db_threshold = 7566047373982433 / 36028797018963968"
    by (simp add: entertainment_spent_fp_def category_rows_db_threshold p m)
  have f: "fmul (3152519739159347 / 2251799813685248) (round64 0.15) = 7566047373982433 / 36028797018963968"
    "fmul (3152519739159347 / 2251799813685248) (round64 0.2) = 5044031582654955 / 18014398509481984"
    by code_simp+
  have g: "get_spending_insights_fp py_sum db_threshold = [affirming_message]"
    unfolding get_spending_insights_fp_cases t d e f by simp
  have c: "entertainment_spent_fp py_sum db_threshold > total_spent_fp py_sum db_threshold * 0.15"
    unfolding t e by simp
  from t e f(1) g c show ?thesis by (simp only: simp_thms)
qed

text \<open>
  The search ignores the case of letters as \<^verbatim>\<open>re.IGNORECASE\<close> does: a dotted capital I
  and a dotless small i, here in UTF-8, count as the letter i, and the pattern may
  stand anywhere in the category.
\<close>

lemma str_contains_examples:
  "str_contains ''Entertainment'' ''Home ENTERTAINMENT''
   \<and> str_contains ''Entertainment'' (''ENTERTA'' @ [CHR 0xC4, CHR 0xB0] @ ''NMENT'')
   \<and> str_contains ''Dining Out'' (''d'' @ [CHR 0xC4, CHR 0xB1] @ ''ning out'')
   \<and> \<not> str_contains ''Dining Out'' ''Dining''
   \<and> \<not> str_contains ''Dining Out'' ''Dining  Out''
   \<and> str_contains ''Dining Out'' ''Fine dining out''"
  by code_simp

text \<open>
  With no expenses the sums of the data frame are sums of no numbers; when such a sum
  is 0 the only message is the affirming one, and the list is never empty.
\<close>

lemma get_spending_insights_fp_no_expenses:
  assumes "expenses st = []" and "series_sum [] = 0"
  shows "get_spending_insights_fp series_sum st = [affirming_message]"
  using assms
  by (simp add: get_spending_insights_fp_cases total_spent_fp_def dining_spent_fp_def
      entertainment_spent_fp_def category_rows_fp_def group_by_sum_with_def fmul_def round64_def)

lemma get_spending_insights_fp_not_empty: "get_spending_insights_fp series_sum st \<noteq> []"
  by (simp add: get_spending_insights_fp_cases)

section \<open>Monthly totals\<close>

lemma strftime_ym_spec:
  assumes "spec_valid_date s"
  shows "strftime_ym s = Some (take 7 s)"
  using assms
  by (cases s rule: spec_valid_date.cases) (simp_all add: datetime_date_def)

lemma spec_valid_dates_db_both: "list_all (\<lambda>r. spec_valid_date (exp_date r)) (expenses db_both)"
  by (simp add: db_both_def digit_def number_def digit_val_def datetime_date_def
      days_in_month_def is_leap_def)

text \<open>
  For a table whose dates are all valid dates in \<^verbatim>\<open>YYYY-MM-DD\<close> form, the months handed
  to the chart are strictly ascending, they are exactly the \<^verbatim>\<open>YYYY-MM\<close> prefixes of the
  stored dates, and the total of each month is the sum of the amounts of the expenses
  with that prefix.
\<close>

lemma monthly_totals_grouped:
  assumes "list_all (\<lambda>r. spec_valid_date (exp_date r)) (expenses st)"
  shows "sorted_wrt (<) (fst (generate_spending_chart st))
   \<and> set (fst (generate_spending_chart st))
       = (\<lambda>r. Some (take 7 (exp_date r))) ` set (expenses st)
   \<and> snd (generate_spending_chart st)
       = map (\<lambda>k. total_expense (filter (\<lambda>r. Some (take 7 (exp_date r)) = k) (expenses st)))
           (fst (generate_spending_chart st))"
proof -
  let ?key = "\<lambda>r. strftime_ym (exp_date r)"
  let ?months = "sort (remdups (map ?key (expenses st)))"
  have key: "?key r = Some (take 7 (exp_date r))" if "r \<in> set (expenses st)" for r
    using that assms by (simp add: strftime_ym_spec list_all_iff)
  have months: "fst (generate_spending_chart st) = ?months"
    by (simp add: generate_spending_chart_def Let_def monthly_rows_def group_by_sum_keys)
  have totals: "snd (generate_spending_chart st)
      = map (\<lambda>k. total_expense (filter (\<lambda>r. ?key r = k) (expenses st))) ?months"
    by (simp add: generate_spending_chart_def Let_def monthly_rows_def group_by_sum_values)
  have "sorted_wrt (<) ?months"
    by (simp add: strict_sorted_iff)
  moreover have "set ?months = (\<lambda>r. Some (take 7 (exp_date r))) ` set (expenses st)"
    using key by (auto simp: image_iff)
  moreover have "filter (\<lambda>r. ?key r = k) (expenses st)
      = filter (\<lambda>r. Some (take 7 (exp_date r)) = k) (expenses st)" for k
    using key by (intro filter_cong) auto
  ultimately show ?thesis
    by (simp add: months totals)
qed

lemma monthly_totals_grouped_example:
  "list_all (\<lambda>r. spec_valid_date (exp_date r)) (expenses db_both)
   \<and> fst (generate_spending_chart db_both) = [Some ''2023-12'', Some ''2024-01'', Some ''2024-02'']
   \<and> sorted_wrt (<) (fst (generate_spending_chart db_both))
   \<and> snd (generate_spending_chart db_both) = [30, 90, 10]"
proof -
  have m: "fst (generate_spending_chart db_both) = [Some ''2023-12'', Some ''2024-01'', Some ''2024-02'']"
    and t: "snd (generate_spending_chart db_both) = [30, 90, 10]"
    by code_simp+
  from monthly_totals_grouped [OF spec_valid_dates_db_both] m t spec_valid_dates_db_both
  show ?thesis by simp
qed

text \<open>
  C5 (evaluation at the failing input). The table that \<open>add_expense\<close> leaves after the
  date \<^verbatim>\<open>2024-1-5\<close> was entered has one month group, and its key is \<^verbatim>\<open>NULL\<close>: the date is
  not a time value for \<^verbatim>\<open>strftime\<close>. The key is not the prefix \<^verbatim>\<open>2024-1-\<close> of the stored
  date, nor any month.
\<close>

theorem monthly_key_of_unpadded_date:
  "add_expense float_of_numeral ''2024-1-5'' ''Food'' ''5'' fresh_db
     = Inr (''Expense added successfully!'', added_first)
   \<and> generate_spending_chart added_first = ([None], [5])
   \<and> map (\<lambda>r. take 7 (exp_date r)) (expenses added_first) = [''2024-1-'']"
proof -
  have "generate_spending_chart added_first = ([None], [5])"
    by code_simp
  moreover have "map (\<lambda>r. take 7 (exp_date r)) (expenses added_first) = [''2024-1-'']"
    by (simp add: added_first_def)
  ultimately show ?thesis
    using add_expense_fresh_db by simp
qed

section \<open>The export\<close>

lemma file_inv_iff:
  "file_inv room0 written f \<longleftrightarrow>
     (\<exists>bytes. content (dest f) = Some bytes \<and> bytes @ pending f = written
        \<and> length bytes + room (dest f) = room0)"
  by (simp add: file_inv_def split: option.splits)

lemma file_inv_open:
  "file_inv (room dst) [] \<lparr>dest = dst\<lparr>content := Some []\<rparr>, pending = []\<rparr>"
  by (simp add: file_inv_iff)















end
